theory Spec2Isabelle
  imports Main
begin

section \<open>Python strings\<close>

text \<open>
  A Python \<open>str\<close> is modelled as a \<open>string\<close>, one \<open>char\<close> per code point. This covers
  the code points below 256; among these the decimal digits (the class \<open>\d\<close> of the
  regular expressions below) are exactly \<open>0\<close> to \<open>9\<close>.
\<close>

definition startswith :: "string \<Rightarrow> string \<Rightarrow> bool" where
  "startswith s p = (take (length p) s = p)"

definition endswith :: "string \<Rightarrow> string \<Rightarrow> bool" where
  "endswith s x = (length x \<le> length s \<and> drop (length s - length x) s = x)"

text \<open>
  \<open>s.replace(old, new)\<close> for a non-empty \<open>old\<close>: every occurrence of \<open>old\<close>, found from
  left to right without overlap, is replaced.
\<close>

function replace_scan :: "string \<Rightarrow> string \<Rightarrow> string \<Rightarrow> string" where
  "replace_scan old new s =
     (if old = [] \<or> s = [] then s
      else if startswith s old then new @ replace_scan old new (drop (length old) s)
      else hd s # replace_scan old new (tl s))"
  by pat_completeness auto
termination
  by (relation "measure (\<lambda>(old, new, s). length s)") auto

declare replace_scan.simps [simp del]

text \<open>
  \<open>s.replace(old, new)\<close>. With an empty \<open>old\<close>, Python puts \<open>new\<close> before every character
  and at the end.
\<close>

definition replace :: "string \<Rightarrow> string \<Rightarrow> string \<Rightarrow> string" where
  "replace s old new =
     (if old = [] then new @ concat (map (\<lambda>c. c # new) s) else replace_scan old new s)"

text \<open>The white space that \<open>str.strip()\<close> removes, among the code points below 256.\<close>

definition is_space :: "char \<Rightarrow> bool" where
  "is_space c = (of_char c \<in> set [9, 10, 11, 12, 13, 28, 29, 30, 31, 32, 133, 160 :: nat])"

definition strip :: "string \<Rightarrow> string" where
  "strip s = rev (dropWhile is_space (rev (dropWhile is_space s)))"

text \<open>\<open>s.split(sep)\<close> for a separator of one character.\<close>

fun split :: "char \<Rightarrow> string \<Rightarrow> string list" where
  "split sep [] = [[]]"
| "split sep (c # cs) =
     (if c = sep then [] # split sep cs
      else (c # hd (split sep cs)) # tl (split sep cs))"

definition is_digit :: "char \<Rightarrow> bool" where
  "is_digit c = (c \<in> set ''0123456789'')"

definition digit_val :: "char \<Rightarrow> nat" where
  "digit_val c = length (takeWhile (\<lambda>d. d \<noteq> c) ''0123456789'')"

text \<open>\<open>int(s)\<close> on a string of decimal digits.\<close>

definition int_of_digits :: "string \<Rightarrow> nat" where
  "int_of_digits s = foldl (\<lambda>a c. 10 * a + digit_val c) 0 s"

definition digit_char :: "nat \<Rightarrow> char" where
  "digit_char n = ''0123456789'' ! (n mod 10)"

fun str_nat :: "nat \<Rightarrow> string" where
  "str_nat n = (if n < 10 then [digit_char n] else str_nat (n div 10) @ [digit_char n])"

declare str_nat.simps [simp del]

text \<open>The conversion \<open>%d\<close> of an integer, which is also \<open>str\<close> of it.\<close>

definition str_int :: "int \<Rightarrow> string" where
  "str_int i = (if i < 0 then CHR ''-'' # str_nat (nat (- i)) else str_nat (nat i))"

section \<open>The semver library\<close>

text \<open>
  \<open>main.py\<close> builds on the class \<open>semver.Version\<close> of the python-semver library
  (release 3). The parts of the class that \<open>main.py\<close> calls are modelled here after the
  library: the constructor, \<open>parse\<close>, \<open>bump_patch\<close>, \<open>compare\<close> with the comparison
  operators defined from it, and \<open>__str__\<close>.
\<close>

datatype py_error = ValueError | TypeError

record Version =
  major :: int
  minor :: int
  patch :: int
  prerelease :: "string option"
  build :: "string option"

text \<open>
  \<open>Version(major, minor, patch)\<close>: a negative part raises ValueError
  ("is negative. A version can only be positive.").
\<close>

definition Version_init :: "int \<Rightarrow> int \<Rightarrow> int \<Rightarrow> py_error + Version" where
  "Version_init ma mi pa =
     (if ma < 0 \<or> mi < 0 \<or> pa < 0 then Inl ValueError
      else Inr \<lparr>major = ma, minor = mi, patch = pa, prerelease = None, build = None\<rparr>)"

text \<open>\<open>bump_patch\<close>: \<open>cls(self._major, self._minor, self._patch + 1)\<close>.\<close>

definition bump_patch :: "Version \<Rightarrow> py_error + Version" where
  "bump_patch v = Version_init (major v) (minor v) (patch v + 1)"

text \<open>
  \<open>__str__\<close>: \<open>"%d.%d.%d"\<close>, then \<open>-prerelease\<close> and \<open>+build\<close> when they are set and
  not empty.
\<close>

definition truthy :: "string option \<Rightarrow> bool" where
  "truthy x = (case x of None \<Rightarrow> False | Some s \<Rightarrow> s \<noteq> [])"

definition str_Version :: "Version \<Rightarrow> string" where
  "str_Version v =
     str_int (major v) @ ''.'' @ str_int (minor v) @ ''.'' @ str_int (patch v)
     @ (if truthy (prerelease v) then ''-'' @ the (prerelease v) else [])
     @ (if truthy (build v) then ''+'' @ the (build v) else [])"

subsection \<open>Parsing\<close>

text \<open>
  \<open>Version.parse\<close> matches the whole string against
  \<^verbatim>\<open>^(0|[1-9]\d*)\.(0|[1-9]\d*)\.(0|[1-9]\d*)(?:-(PRE))?(?:\+(BUILD))?$\<close>
  where \<open>PRE\<close> is a dot-separated list of identifiers
  \<^verbatim>\<open>0|[1-9]\d*|\d*[a-zA-Z-][0-9a-zA-Z-]*\<close> and \<open>BUILD\<close> a dot-separated list of
  \<^verbatim>\<open>[0-9a-zA-Z-]+\<close>. A run of digits of the pattern is followed by a character
  that is no digit, so it is the longest run; neither list can hold a \<open>+\<close>.
\<close>

definition is_ident_char :: "char \<Rightarrow> bool" where
  "is_ident_char c =
     (c \<in> set (''0123456789'' @ ''abcdefghijklmnopqrstuvwxyz''
               @ ''ABCDEFGHIJKLMNOPQRSTUVWXYZ'' @ ''-''))"

definition numeric_id :: "string \<Rightarrow> bool" where
  "numeric_id s = (s \<noteq> [] \<and> list_all is_digit s \<and> (s = ''0'' \<or> hd s \<noteq> CHR ''0''))"

definition build_id :: "string \<Rightarrow> bool" where
  "build_id s = (s \<noteq> [] \<and> list_all is_ident_char s)"

definition prerelease_id :: "string \<Rightarrow> bool" where
  "prerelease_id s = (build_id s \<and> (if list_all is_digit s then numeric_id s else True))"

definition match_tail :: "string \<Rightarrow> (string option \<times> string option) option" where
  "match_tail r =
     (case r of
        [] \<Rightarrow> Some (None, None)
      | c # t \<Rightarrow>
          if c = CHR ''-'' then
            (let pre = takeWhile (\<lambda>x. x \<noteq> CHR ''+'') t;
                 r' = dropWhile (\<lambda>x. x \<noteq> CHR ''+'') t
             in if \<not> list_all prerelease_id (split (CHR ''.'') pre) then None
                else (case r' of
                        [] \<Rightarrow> Some (Some pre, None)
                      | p # b \<Rightarrow>
                          if list_all build_id (split (CHR ''.'') b) then Some (Some pre, Some b)
                          else None))
          else if c = CHR ''+'' then
            (if list_all build_id (split (CHR ''.'') t) then Some (None, Some t) else None)
          else None)"

text \<open>One numeric part of the pattern and the dot after it.\<close>

definition match_number_dot :: "string \<Rightarrow> (string \<times> string) option" where
  "match_number_dot s =
     (let n = takeWhile is_digit s; r = dropWhile is_digit s
      in if \<not> numeric_id n then None
         else (case r of [] \<Rightarrow> None | c # t \<Rightarrow> if c = CHR ''.'' then Some (n, t) else None))"

definition regex_match ::
  "string \<Rightarrow> (string \<times> string \<times> string \<times> string option \<times> string option) option" where
  "regex_match s =
     (case match_number_dot s of
        None \<Rightarrow> None
      | Some (ma, r1) \<Rightarrow>
          (case match_number_dot r1 of
             None \<Rightarrow> None
           | Some (mi, r2) \<Rightarrow>
               (let pa = takeWhile is_digit r2
                in if \<not> numeric_id pa then None
                   else (case match_tail (dropWhile is_digit r2) of
                           None \<Rightarrow> None
                         | Some (pre, bld) \<Rightarrow> Some (ma, mi, pa, pre, bld)))))"

text \<open>
  \<open>$\<close> also matches before a line feed that ends the string. No match raises
  ValueError; the constructor converts the numeric groups with \<open>int\<close>.
\<close>

definition parse :: "string \<Rightarrow> py_error + Version" where
  "parse s =
     (case regex_match (if s \<noteq> [] \<and> last s = CHR 0x0A then butlast s else s) of
        None \<Rightarrow> Inl ValueError
      | Some (ma, mi, pa, pre, bld) \<Rightarrow>
          Inr \<lparr>major = int (int_of_digits ma), minor = int (int_of_digits mi),
               patch = int (int_of_digits pa), prerelease = pre, build = bld\<rparr>)"

subsection \<open>Comparison\<close>

text \<open>\<open>_cmp(a, b)\<close> is \<open>(a > b) - (a < b)\<close>; on tuples and strings Python compares
  lexicographically.\<close>

definition cmp_int :: "int \<Rightarrow> int \<Rightarrow> int" where
  "cmp_int a b = (if a > b then 1 else 0) - (if a < b then 1 else 0)"

definition cmp_tuple3 :: "int \<times> int \<times> int \<Rightarrow> int \<times> int \<times> int \<Rightarrow> int" where
  "cmp_tuple3 a b =
     (case (a, b) of
        ((a1, a2, a3), (b1, b2, b3)) \<Rightarrow>
          if a1 \<noteq> b1 then cmp_int a1 b1
          else if a2 \<noteq> b2 then cmp_int a2 b2
          else cmp_int a3 b3)"

fun cmp_str :: "string \<Rightarrow> string \<Rightarrow> int" where
  "cmp_str [] [] = 0"
| "cmp_str [] (y # ys) = - 1"
| "cmp_str (x # xs) [] = 1"
| "cmp_str (x # xs) (y # ys) =
     (if x = y then cmp_str xs ys else cmp_int (of_char x) (of_char y))"

text \<open>
  \<open>_nat_cmp\<close> compares two prerelease strings part by part; a part made of digits
  only is converted to an integer and sorts before any other part.
\<close>

datatype prerelease_tag = Number nat | Text string

definition convert :: "string \<Rightarrow> prerelease_tag" where
  "convert text =
     (let t = (if text \<noteq> [] \<and> last text = CHR 0x0A then butlast text else text)
      in if t \<noteq> [] \<and> list_all is_digit t then Number (int_of_digits t) else Text text)"

fun cmp_prerelease_tag :: "prerelease_tag \<Rightarrow> prerelease_tag \<Rightarrow> int" where
  "cmp_prerelease_tag (Number a) (Number b) = cmp_int (int a) (int b)"
| "cmp_prerelease_tag (Number a) (Text b) = - 1"
| "cmp_prerelease_tag (Text a) (Number b) = 1"
| "cmp_prerelease_tag (Text a) (Text b) = cmp_str a b"

fun nat_cmp_loop :: "(prerelease_tag \<times> prerelease_tag) list \<Rightarrow> int option" where
  "nat_cmp_loop [] = None"
| "nat_cmp_loop ((a, b) # ps) =
     (if cmp_prerelease_tag a b \<noteq> 0 then Some (cmp_prerelease_tag a b) else nat_cmp_loop ps)"

definition nat_cmp :: "string option \<Rightarrow> string option \<Rightarrow> int" where
  "nat_cmp x y =
     (let a = (if truthy x then the x else []); b = (if truthy y then the y else [])
      in case nat_cmp_loop (zip (map convert (split (CHR ''.'') a))
                                (map convert (split (CHR ''.'') b))) of
           Some r \<Rightarrow> r
         | None \<Rightarrow> cmp_int (int (length a)) (int (length b)))"

definition to_tuple3 :: "Version \<Rightarrow> int \<times> int \<times> int" where
  "to_tuple3 v = (major v, minor v, patch v)"

text \<open>
  \<open>compare\<close>: the tuples (major, minor, patch) first; the prerelease strings only
  when these are equal; the build never.
\<close>

definition compare :: "Version \<Rightarrow> Version \<Rightarrow> int" where
  "compare v w =
     (let x = cmp_tuple3 (to_tuple3 v) (to_tuple3 w)
      in if x \<noteq> 0 then x
         else (let rccmp = nat_cmp (prerelease v) (prerelease w)
               in if rccmp = 0 then 0
                  else if \<not> truthy (prerelease v) then 1
                  else if \<not> truthy (prerelease w) then - 1
                  else rccmp))"

text \<open>\<open>__eq__\<close> and \<open>__gt__\<close> are \<open>compare(other) == 0\<close> and \<open>compare(other) > 0\<close>.\<close>

definition Version_eq :: "Version \<Rightarrow> Version \<Rightarrow> bool" where
  "Version_eq v w = (compare v w = 0)"

definition Version_gt :: "Version \<Rightarrow> Version \<Rightarrow> bool" where
  "Version_gt v w = (compare v w > 0)"

section \<open>Python sets and \<open>max\<close>\<close>

text \<open>
  A Python set is modelled as the list of its elements in the order of iteration.
  \<open>add\<close> leaves the set as it is when it holds an equal element already. The order in
  which Python iterates over a set is not the order of insertion; what is proved below
  about \<open>max\<close> holds for every order.
\<close>

definition add_version :: "Version \<Rightarrow> Version list \<Rightarrow> Version list" where
  "add_version v vs = (if list_ex (\<lambda>w. Version_eq w v) vs then vs else vs @ [v])"

definition add_tag :: "string \<Rightarrow> string list \<Rightarrow> string list" where
  "add_tag n ns = (if n \<in> set ns then ns else ns @ [n])"

text \<open>
  \<open>max(iterable)\<close> keeps the first item and replaces it by each later item that is
  greater; on an empty iterable it raises ValueError.
\<close>

definition max_version :: "Version list \<Rightarrow> py_error + Version" where
  "max_version vs =
     (case vs of
        [] \<Rightarrow> Inl ValueError
      | v # ws \<Rightarrow> Inr (foldl (\<lambda>m w. if Version_gt w m then w else m) v ws))"

section \<open>The program: \<open>main.py\<close>\<close>

text \<open>
  The repository as the program reads it: the references in the order in which
  \<open>git_repo.references\<close> yields them at the call of \<open>find_previous_versions\<close> (after the
  fetch and pull, when there is one), each with its class and its name, and the names of
  the remotes. What the program does to the repository and its remotes is recorded as a
  list of operations.
\<close>

datatype reference = TagReference string | Head string | RemoteReference string

record repo =
  references :: "reference list"
  remotes :: "string list"

datatype git_op = Fetch string | Pull string | CreateTag string | Push string string

datatype level = INFO | WARNING | ERROR

type_synonym log_record = "level \<times> string"

subsection \<open>\<open>find_previous_versions\<close>\<close>

text \<open>Line 20: \<open>ref_name.replace(version_prefix, '').replace(version_suffix, '')\<close>.\<close>

definition extracted_version :: "string \<Rightarrow> string \<Rightarrow> string \<Rightarrow> string" where
  "extracted_version ref_name version_prefix version_suffix =
     replace (replace ref_name version_prefix []) version_suffix []"

record found =
  previous_versions :: "Version list"
  all_git_tags :: "string list"
  logged :: "log_record list"

text \<open>
  The body of the loop over the references, lines 15 to 27. The name of a reference is a
  string, so the test of line 18 holds.
\<close>

definition visit_ref :: "string \<Rightarrow> string \<Rightarrow> found \<Rightarrow> reference \<Rightarrow> found" where
  "visit_ref version_prefix version_suffix st ref =
     (case ref of
        TagReference ref_name \<Rightarrow>
          (let st1 = st\<lparr>all_git_tags := add_tag ref_name (all_git_tags st)\<rparr>
           in if startswith ref_name version_prefix \<and> endswith ref_name version_suffix then
                (case parse (extracted_version ref_name version_prefix version_suffix) of
                   Inl e \<Rightarrow>
                     st1\<lparr>logged := logged st1 @
                        [(WARNING, ''Tagname '' @ ref_name
                            @ '' could not be parsed as <Major>.<Minor>.<Patch> Version'')]\<rparr>
                 | Inr version \<Rightarrow>
                     st1\<lparr>previous_versions := add_version version (previous_versions st1),
                         logged := logged st1 @ [(INFO, ''Tag '' @ ref_name @ '' found'')]\<rparr>)
              else st1)
      | Head n \<Rightarrow> st
      | RemoteReference n \<Rightarrow> st)"

definition find_previous_versions :: "reference list \<Rightarrow> string \<Rightarrow> string \<Rightarrow> found" where
  "find_previous_versions refs version_prefix version_suffix =
     foldl (visit_ref version_prefix version_suffix)
       \<lparr>previous_versions = [], all_git_tags = [], logged = []\<rparr> refs"

subsection \<open>\<open>filter_versions\<close>\<close>

definition filter_versions :: "Version list \<Rightarrow> int option \<Rightarrow> int option \<Rightarrow> Version list" where
  "filter_versions versions filter_major_version filter_minor_version =
     (case filter_major_version of
        None \<Rightarrow> versions
      | Some fma \<Rightarrow>
          foldl (\<lambda>filtered_versions version.
                   if major version = fma then
                     (if filter_minor_version = None \<or> minor version = the filter_minor_version
                      then add_version version filtered_versions
                      else filtered_versions)
                   else filtered_versions)
            [] versions)"

subsection \<open>\<open>generate_version_name\<close>\<close>

definition generate_version_name ::
  "Version \<Rightarrow> string \<Rightarrow> string \<Rightarrow> bool \<Rightarrow> string option \<Rightarrow> string" where
  "generate_version_name increased_version version_prefix version_suffix
       override_patch_version patch_version =
     (if override_patch_version \<and> (patch_version \<noteq> None \<and> strip (the patch_version) \<noteq> [])
      then version_prefix @ str_int (major increased_version) @ ''.''
             @ str_int (minor increased_version) @ ''-SNAPSHOT'' @ version_suffix
      else version_prefix @ str_Version increased_version @ version_suffix)"

subsection \<open>\<open>calculate_new_version\<close>\<close>

record options =
  version_prefix :: string
  version_suffix :: string
  filter_major_version :: "int option"
  filter_minor_version :: "int option"
  create_no_git_tag :: bool
  pull_before :: bool
  create_snapshot_version :: bool
  verbose :: bool

text \<open>
  Lines 84 to 103: the choice of \<open>increased_version\<close>, with the record logged in the last
  branch. \<open>Version(None, ...)\<close> raises TypeError.
\<close>

definition increased_version ::
  "Version list \<Rightarrow> Version list \<Rightarrow> int option \<Rightarrow> int option
     \<Rightarrow> py_error + (Version \<times> log_record list)" where
  "increased_version versions filtered_versions fmajor fminor =
     (if length versions = 0 then
        map_sum id (\<lambda>v. (v, [])) (Version_init 1 0 0)
      else if length filtered_versions = 0 then
        (case fmajor of
           None \<Rightarrow> Inl TypeError
         | Some ma \<Rightarrow>
             map_sum id (\<lambda>v. (v, []))
               (Version_init ma (case fminor of None \<Rightarrow> 0 | Some mi \<Rightarrow> if mi \<noteq> 0 then mi else 0) 0))
      else
        (case max_version filtered_versions of
           Inl e \<Rightarrow> Inl e
         | Inr max_v \<Rightarrow>
             map_sum id (\<lambda>v. (v, [(INFO, ''Max Version is '' @ str_Version max_v)]))
               (bump_patch max_v)))"

text \<open>
  \<open>logging.basicConfig\<close> of line 74: to standard error, from level INFO when verbose and
  from level ERROR otherwise, each record as \<open>LEVEL: message\<close>.
\<close>

definition level_name :: "level \<Rightarrow> string" where
  "level_name l = (case l of INFO \<Rightarrow> ''INFO'' | WARNING \<Rightarrow> ''WARNING'' | ERROR \<Rightarrow> ''ERROR'')"

definition emitted :: "bool \<Rightarrow> log_record list \<Rightarrow> string list" where
  "emitted vb recs =
     map (\<lambda>(l, m). level_name l @ '': '' @ m) (filter (\<lambda>(l, m). vb \<or> l = ERROR) recs)"

text \<open>
  What a run leaves behind: the exit status, the lines printed to standard output, the
  log lines written to standard error (the traceback of an uncaught exception is not
  modelled), the operations on the repository, and the uncaught exception if there is
  one.
\<close>

record outcome =
  exit_status :: int
  stdout :: "string list"
  stderr :: "string list"
  git_ops :: "git_op list"
  uncaught :: "py_error option"

definition fetch_and_pull_remotes :: "repo \<Rightarrow> git_op list \<times> log_record list" where
  "fetch_and_pull_remotes git_repo =
     (concat (map (\<lambda>r. [Fetch r, Pull r]) (remotes git_repo)),
      map (\<lambda>r. (INFO, ''Found remote '' @ r)) (remotes git_repo))"

definition push_new_tags_to_remotes :: "repo \<Rightarrow> string \<Rightarrow> git_op list \<times> log_record list" where
  "push_new_tags_to_remotes git_repo new_tag =
     (map (\<lambda>r. Push r new_tag) (remotes git_repo),
      map (\<lambda>r. (INFO, ''Found remote '' @ r)) (remotes git_repo))"

text \<open>Lines 81 and 82: the two sets of versions.\<close>

definition versions_of :: "options \<Rightarrow> repo \<Rightarrow> Version list" where
  "versions_of opts git_repo =
     previous_versions (find_previous_versions (references git_repo)
       (version_prefix opts) (version_suffix opts))"

definition filtered_versions_of :: "options \<Rightarrow> repo \<Rightarrow> Version list" where
  "filtered_versions_of opts git_repo =
     filter_versions (versions_of opts git_repo)
       (filter_major_version opts) (filter_minor_version opts)"

text \<open>Lines 84 to 103: the value of \<open>increased_version\<close> with which line 105 is reached.\<close>

definition selection :: "options \<Rightarrow> repo \<Rightarrow> py_error + (Version \<times> log_record list)" where
  "selection opts git_repo =
     increased_version (versions_of opts git_repo) (filtered_versions_of opts git_repo)
       (filter_major_version opts) (filter_minor_version opts)"

text \<open>Line 105.\<close>

definition new_version_tag_name :: "options \<Rightarrow> Version \<Rightarrow> string" where
  "new_version_tag_name opts v =
     generate_version_name v (version_prefix opts) (version_suffix opts)
       (create_snapshot_version opts) (Some ''SNAPSHOT'')"

definition calculate_new_version :: "options \<Rightarrow> repo \<Rightarrow> outcome" where
  "calculate_new_version opts git_repo =
     (let (ops0, log0) = (if pull_before opts then fetch_and_pull_remotes git_repo else ([], []));
          fnd = find_previous_versions (references git_repo)
                  (version_prefix opts) (version_suffix opts)
      in case selection opts git_repo of
           Inl e \<Rightarrow>
             \<lparr>exit_status = 1, stdout = [],
              stderr = emitted (verbose opts) (log0 @ logged fnd),
              git_ops = ops0, uncaught = Some e\<rparr>
         | Inr (v, log1) \<Rightarrow>
             (let name = new_version_tag_name opts v;
                  recs = log0 @ logged fnd @ log1
              in if \<not> create_no_git_tag opts then
                   (if name \<in> set (all_git_tags fnd) then
                      \<lparr>exit_status = 1, stdout = [],
                       stderr = emitted (verbose opts)
                         (recs @ [(ERROR, ''Could not create '' @ name
                                     @ '' git-tag, because it already exsists'')]),
                       git_ops = ops0, uncaught = None\<rparr>
                    else
                      (let (ops1, log2) = push_new_tags_to_remotes git_repo name
                       in \<lparr>exit_status = 0, stdout = [name],
                           stderr = emitted (verbose opts) (recs @ log2),
                           git_ops = ops0 @ [CreateTag name] @ ops1,
                           uncaught = None\<rparr>))
                 else
                   \<lparr>exit_status = 0, stdout = [name],
                    stderr = emitted (verbose opts) recs,
                    git_ops = ops0, uncaught = None\<rparr>))"

text \<open>The operations that create or push a tag.\<close>

fun writes_tag :: "git_op \<Rightarrow> bool" where
  "writes_tag (CreateTag n) = True"
| "writes_tag (Push r n) = True"
| "writes_tag (Fetch r) = False"
| "writes_tag (Pull r) = False"

section \<open>The notions of the specification\<close>

text \<open>The order of versions by (major, minor, patch), compared lexicographically.\<close>

definition key_le :: "Version \<Rightarrow> Version \<Rightarrow> bool" where
  "key_le v w =
     (major v < major w \<or>
      (major v = major w \<and> (minor v < minor w \<or> (minor v = minor w \<and> patch v \<le> patch w))))"

text \<open>
  A list that stands for a Python set of versions: no element is equal, in the sense of
  \<open>__eq__\<close>, to a later one.
\<close>

fun version_set :: "Version list \<Rightarrow> bool" where
  "version_set [] = True"
| "version_set (v # vs) = (\<not> list_ex (\<lambda>w. Version_eq v w) vs \<and> version_set vs)"

text \<open>
  Stripping exactly the leading prefix and the trailing suffix from a tag name that
  starts with the one and ends with the other.
\<close>

definition strip_affixes :: "string \<Rightarrow> string \<Rightarrow> string \<Rightarrow> string" where
  "strip_affixes ref_name pre suf =
     take (length ref_name - length pre - length suf) (drop (length pre) ref_name)"

section \<open>Inputs used in the examples\<close>

text \<open>The defaults of the command line options, lines 63 to 71.\<close>

definition default_options :: options where
  "default_options =
     \<lparr>version_prefix = ''v'', version_suffix = [], filter_major_version = None,
      filter_minor_version = None, create_no_git_tag = False, pull_before = True,
      create_snapshot_version = False, verbose = False\<rparr>"

definition repo_with_tags :: "string list \<Rightarrow> repo" where
  "repo_with_tags names = \<lparr>references = map TagReference names, remotes = [''origin'']\<rparr>"

definition version_of :: "int \<Rightarrow> int \<Rightarrow> int \<Rightarrow> Version" where
  "version_of ma mi pa =
     \<lparr>major = ma, minor = mi, patch = pa, prerelease = None, build = None\<rparr>"

section \<open>Facts about the library model\<close>

lemma Version_init_ok:
  "0 \<le> a \<Longrightarrow> 0 \<le> b \<Longrightarrow> 0 \<le> c \<Longrightarrow>
   Version_init a b c = Inr \<lparr>major = a, minor = b, patch = c, prerelease = None, build = None\<rparr>"
  by (simp add: Version_init_def)

lemma parse_nonneg:
  "parse s = Inr v \<Longrightarrow> 0 \<le> major v \<and> 0 \<le> minor v \<and> 0 \<le> patch v"
  unfolding parse_def
  by (cases "regex_match (if s \<noteq> [] \<and> last s = CHR 0x0A then butlast s else s)")
     (auto split: prod.splits)

lemma cmp_int_refl: "cmp_int a a = 0"
  by (simp add: cmp_int_def)

lemma cmp_str_refl: "cmp_str a a = 0"
  by (induction a) simp_all

lemma cmp_prerelease_tag_refl: "cmp_prerelease_tag a a = 0"
  by (cases a) (simp_all add: cmp_int_refl cmp_str_refl)

lemma nat_cmp_loop_refl: "nat_cmp_loop (zip xs xs) = None"
  by (induction xs) (simp_all add: cmp_prerelease_tag_refl)

lemma nat_cmp_refl: "nat_cmp x x = 0"
  by (simp add: nat_cmp_def nat_cmp_loop_refl cmp_int_refl Let_def)

lemma cmp_tuple3_refl: "cmp_tuple3 a a = 0"
  by (cases a) (simp add: cmp_tuple3_def cmp_int_refl)

lemma compare_refl: "compare v v = 0"
  by (simp add: compare_def cmp_tuple3_refl nat_cmp_refl)

lemma Version_eq_refl: "Version_eq v v"
  by (simp add: Version_eq_def compare_refl)

text \<open>The comparison decides by the key (major, minor, patch) before anything else.\<close>

lemma cmp_tuple3_pos: "0 < cmp_tuple3 (to_tuple3 v) (to_tuple3 w) \<Longrightarrow> key_le w v"
  by (auto simp: cmp_tuple3_def to_tuple3_def cmp_int_def key_le_def split: if_splits)

lemma cmp_tuple3_zero: "cmp_tuple3 (to_tuple3 v) (to_tuple3 w) = 0 \<Longrightarrow> key_le w v \<and> key_le v w"
  by (auto simp: cmp_tuple3_def to_tuple3_def cmp_int_def key_le_def split: if_splits)

lemma cmp_tuple3_neg: "cmp_tuple3 (to_tuple3 v) (to_tuple3 w) < 0 \<Longrightarrow> key_le v w"
  by (auto simp: cmp_tuple3_def to_tuple3_def cmp_int_def key_le_def split: if_splits)

lemma Version_gt_key: "Version_gt v w \<Longrightarrow> key_le w v"
proof -
  assume gt: "Version_gt v w"
  consider "0 < cmp_tuple3 (to_tuple3 v) (to_tuple3 w)" | "cmp_tuple3 (to_tuple3 v) (to_tuple3 w) = 0"
    | "cmp_tuple3 (to_tuple3 v) (to_tuple3 w) < 0" by linarith
  then show ?thesis
  proof cases
    case 1 then show ?thesis by (rule cmp_tuple3_pos)
  next
    case 2 then show ?thesis using cmp_tuple3_zero by blast
  next
    case 3 with gt show ?thesis by (simp add: Version_gt_def compare_def)
  qed
qed

lemma not_Version_gt_key: "\<not> Version_gt v w \<Longrightarrow> key_le v w"
proof -
  assume ngt: "\<not> Version_gt v w"
  consider "0 < cmp_tuple3 (to_tuple3 v) (to_tuple3 w)" | "cmp_tuple3 (to_tuple3 v) (to_tuple3 w) = 0"
    | "cmp_tuple3 (to_tuple3 v) (to_tuple3 w) < 0" by linarith
  then show ?thesis
  proof cases
    case 1 with ngt show ?thesis by (simp add: Version_gt_def compare_def)
  next
    case 2 then show ?thesis using cmp_tuple3_zero by blast
  next
    case 3 then show ?thesis by (rule cmp_tuple3_neg)
  qed
qed

lemma key_le_trans: "key_le a b \<Longrightarrow> key_le b c \<Longrightarrow> key_le a c"
  by (auto simp: key_le_def)

lemma key_le_refl: "key_le a a"
  by (simp add: key_le_def)

text \<open>What \<open>max\<close> returns is an element with the greatest key, in whatever order the
  elements come.\<close>

lemma foldl_max_key:
  "\<exists>m \<in> set (v # ws). foldl (\<lambda>m w. if Version_gt w m then w else m) v ws = m
      \<and> (\<forall>u \<in> set (v # ws). key_le u m)"
proof (induction ws arbitrary: v rule: rev_induct)
  case Nil
  show ?case by (simp add: key_le_refl)
next
  case (snoc w ws)
  from snoc.IH[of v] obtain m where m: "m \<in> set (v # ws)"
    "foldl (\<lambda>m w. if Version_gt w m then w else m) v ws = m" "\<forall>u \<in> set (v # ws). key_le u m"
    by blast
  show ?case
  proof (cases "Version_gt w m")
    case True
    then have "key_le m w" by (rule Version_gt_key)
    with m(3) have "\<forall>u \<in> set (v # ws @ [w]). key_le u w"
      using key_le_trans key_le_refl by auto
    with True m(2) show ?thesis by simp
  next
    case False
    then have "key_le w m" by (rule not_Version_gt_key)
    with m(3) have "\<forall>u \<in> set (v # ws @ [w]). key_le u m" by auto
    with False m(1,2) show ?thesis by auto
  qed
qed

lemma max_version_key:
  "vs \<noteq> [] \<Longrightarrow> \<exists>m \<in> set vs. max_version vs = Inr m \<and> (\<forall>u \<in> set vs. key_le u m)"
  using foldl_max_key by (cases vs) (auto simp: max_version_def)

section \<open>Facts about \<open>find_previous_versions\<close>\<close>

lemma set_add_version: "set (add_version v vs) \<subseteq> insert v (set vs)"
  by (auto simp: add_version_def)

lemma add_version_keeps: "set vs \<subseteq> set (add_version v vs)"
  by (auto simp: add_version_def)

lemma add_version_holds: "\<exists>w \<in> set (add_version v vs). Version_eq w v"
  by (auto simp: add_version_def list_ex_iff Version_eq_refl)

lemma set_add_tag: "set (add_tag n ns) = insert n (set ns)"
  by (auto simp: add_tag_def)

lemma visit_ref_versions_from:
  assumes "v \<in> set (previous_versions (visit_ref p s st r))"
  shows "v \<in> set (previous_versions st) \<or>
         (\<exists>n. r = TagReference n \<and> startswith n p \<and> endswith n s \<and>
              parse (extracted_version n p s) = Inr v)"
  using assms set_add_version
  by (cases r) (auto simp: visit_ref_def Let_def split: if_splits sum.splits)

lemma visit_ref_versions_mono:
  "set (previous_versions st) \<subseteq> set (previous_versions (visit_ref p s st r))"
  using add_version_keeps
  by (cases r) (auto simp: visit_ref_def Let_def split: if_splits sum.splits)

lemma visit_ref_accepts:
  assumes "startswith n p" "endswith n s" "parse (extracted_version n p s) = Inr v"
  shows "\<exists>w \<in> set (previous_versions (visit_ref p s st (TagReference n))). Version_eq w v"
  using assms add_version_holds by (simp add: visit_ref_def Let_def)

lemma visit_ref_logged_mono:
  "set (logged st) \<subseteq> set (logged (visit_ref p s st r))"
  by (cases r) (auto simp: visit_ref_def Let_def split: if_splits sum.splits)

lemma visit_ref_warns:
  assumes "startswith n p" "endswith n s" "parse (extracted_version n p s) = Inl e"
  shows "(WARNING, ''Tagname '' @ n @ '' could not be parsed as <Major>.<Minor>.<Patch> Version'')
           \<in> set (logged (visit_ref p s st (TagReference n)))"
  using assms by (simp add: visit_ref_def Let_def)

lemma visit_ref_tags:
  "set (all_git_tags (visit_ref p s st r)) =
     set (all_git_tags st) \<union> (case r of TagReference n \<Rightarrow> {n} | Head n \<Rightarrow> {} | RemoteReference n \<Rightarrow> {})"
  by (cases r) (auto simp: visit_ref_def Let_def set_add_tag split: if_splits sum.splits)

lemma foldl_versions_from:
  "v \<in> set (previous_versions (foldl (visit_ref p s) st refs)) \<Longrightarrow>
   v \<in> set (previous_versions st) \<or>
   (\<exists>n. TagReference n \<in> set refs \<and> startswith n p \<and> endswith n s \<and>
        parse (extracted_version n p s) = Inr v)"
proof (induction refs arbitrary: st)
  case Nil
  then show ?case by simp
next
  case (Cons r refs)
  from Cons.IH[of "visit_ref p s st r"] Cons.prems
  have "v \<in> set (previous_versions (visit_ref p s st r)) \<or>
        (\<exists>n. TagReference n \<in> set refs \<and> startswith n p \<and> endswith n s \<and>
             parse (extracted_version n p s) = Inr v)"
    by simp
  then show ?case
    using visit_ref_versions_from[of v p s st r] by auto
qed

lemma foldl_versions_mono:
  "set (previous_versions st) \<subseteq> set (previous_versions (foldl (visit_ref p s) st refs))"
proof (induction refs arbitrary: st)
  case Nil
  show ?case by simp
next
  case (Cons r refs)
  show ?case using Cons.IH[of "visit_ref p s st r"] visit_ref_versions_mono[of st p s r] by auto
qed

lemma foldl_logged_mono:
  "set (logged st) \<subseteq> set (logged (foldl (visit_ref p s) st refs))"
proof (induction refs arbitrary: st)
  case Nil
  show ?case by simp
next
  case (Cons r refs)
  show ?case using Cons.IH[of "visit_ref p s st r"] visit_ref_logged_mono[of st p s r] by auto
qed

lemma add_version_eq_mono:
  "\<exists>w \<in> set vs. Version_eq w v \<Longrightarrow> \<exists>w \<in> set (add_version u vs). Version_eq w v"
  using add_version_keeps by blast

lemma foldl_accepts:
  assumes "TagReference n \<in> set refs" "startswith n p" "endswith n s"
    "parse (extracted_version n p s) = Inr v"
  shows "\<exists>w \<in> set (previous_versions (foldl (visit_ref p s) st refs)). Version_eq w v"
  using assms(1)
proof (induction refs arbitrary: st)
  case Nil
  then show ?case by simp
next
  case (Cons r refs)
  show ?case
  proof (cases "TagReference n \<in> set refs")
    case True
    then show ?thesis using Cons.IH[of "visit_ref p s st r"] by simp
  next
    case False
    with Cons.prems have r: "r = TagReference n" by simp
    from visit_ref_accepts[OF assms(2,3,4), of st] obtain w
      where "w \<in> set (previous_versions (visit_ref p s st r))" "Version_eq w v"
      using r by blast
    then show ?thesis
      using foldl_versions_mono[of "visit_ref p s st r" p s refs] by auto
  qed
qed

lemma foldl_warns:
  assumes "TagReference n \<in> set refs" "startswith n p" "endswith n s"
    "parse (extracted_version n p s) = Inl e"
  shows "(WARNING, ''Tagname '' @ n @ '' could not be parsed as <Major>.<Minor>.<Patch> Version'')
           \<in> set (logged (foldl (visit_ref p s) st refs))"
  using assms(1)
proof (induction refs arbitrary: st)
  case Nil
  then show ?case by simp
next
  case (Cons r refs)
  show ?case
  proof (cases "TagReference n \<in> set refs")
    case True
    then show ?thesis using Cons.IH[of "visit_ref p s st r"] by simp
  next
    case False
    with Cons.prems have r: "r = TagReference n" by simp
    show ?thesis
      using visit_ref_warns[OF assms(2,3,4), of st] r
        foldl_logged_mono[of "visit_ref p s st r" p s refs] by auto
  qed
qed

lemma foldl_tags:
  "set (all_git_tags (foldl (visit_ref p s) st refs)) =
     set (all_git_tags st) \<union> {n. TagReference n \<in> set refs}"
proof (induction refs arbitrary: st)
  case Nil
  show ?case by simp
next
  case (Cons r refs)
  show ?case
    unfolding foldl_Cons Cons.IH[of "visit_ref p s st r"] visit_ref_tags
    by (cases r) auto
qed

text \<open>
  What the scan returns, in terms of the text that line 20 leaves of a tag name: every
  version comes from a tag name that starts with the prefix and ends with the suffix and
  whose text parses; every such text that parses has an equal version in the set; every
  such text that does not parse has its warning among the records; and the names of all
  tag references are kept.
\<close>

lemma scan_follows_line_20:
  "(\<forall>v \<in> set (previous_versions (find_previous_versions refs p s)).
      \<exists>n. TagReference n \<in> set refs \<and> startswith n p \<and> endswith n s \<and>
          parse (extracted_version n p s) = Inr v)
   \<and> (\<forall>n v. TagReference n \<in> set refs \<and> startswith n p \<and> endswith n s \<and>
          parse (extracted_version n p s) = Inr v \<longrightarrow>
          (\<exists>w \<in> set (previous_versions (find_previous_versions refs p s)). Version_eq w v))
   \<and> (\<forall>n e. TagReference n \<in> set refs \<and> startswith n p \<and> endswith n s \<and>
          parse (extracted_version n p s) = Inl e \<longrightarrow>
          (WARNING, ''Tagname '' @ n @ '' could not be parsed as <Major>.<Minor>.<Patch> Version'')
            \<in> set (logged (find_previous_versions refs p s)))
   \<and> set (all_git_tags (find_previous_versions refs p s)) = {n. TagReference n \<in> set refs}"
proof (intro conjI ballI allI impI)
  fix v
  assume "v \<in> set (previous_versions (find_previous_versions refs p s))"
  then show "\<exists>n. TagReference n \<in> set refs \<and> startswith n p \<and> endswith n s \<and>
          parse (extracted_version n p s) = Inr v"
    unfolding find_previous_versions_def using foldl_versions_from by fastforce
next
  fix n v
  assume "TagReference n \<in> set refs \<and> startswith n p \<and> endswith n s \<and>
          parse (extracted_version n p s) = Inr v"
  then show "\<exists>w \<in> set (previous_versions (find_previous_versions refs p s)). Version_eq w v"
    unfolding find_previous_versions_def using foldl_accepts by blast
next
  fix n e
  assume "TagReference n \<in> set refs \<and> startswith n p \<and> endswith n s \<and>
          parse (extracted_version n p s) = Inl e"
  then show "(WARNING, ''Tagname '' @ n @ '' could not be parsed as <Major>.<Minor>.<Patch> Version'')
            \<in> set (logged (find_previous_versions refs p s))"
    unfolding find_previous_versions_def using foldl_warns by blast
next
  show "set (all_git_tags (find_previous_versions refs p s)) = {n. TagReference n \<in> set refs}"
    by (simp add: find_previous_versions_def foldl_tags)
qed

text \<open>
  Where line 20 leaves exactly the stripped remainder of every matching tag name, the same
  holds of the stripped remainder.
\<close>

lemma scan_accepts_exact_remainders:
  assumes "\<forall>n. TagReference n \<in> set refs \<and> startswith n p \<and> endswith n s \<longrightarrow>
             extracted_version n p s = strip_affixes n p s"
  shows "(\<forall>v \<in> set (previous_versions (find_previous_versions refs p s)).
            \<exists>n. TagReference n \<in> set refs \<and> startswith n p \<and> endswith n s \<and>
                parse (strip_affixes n p s) = Inr v)
         \<and> (\<forall>n v. TagReference n \<in> set refs \<and> startswith n p \<and> endswith n s \<and>
                parse (strip_affixes n p s) = Inr v \<longrightarrow>
                (\<exists>w \<in> set (previous_versions (find_previous_versions refs p s)). Version_eq w v))
         \<and> (\<forall>n e. TagReference n \<in> set refs \<and> startswith n p \<and> endswith n s \<and>
                parse (strip_affixes n p s) = Inl e \<longrightarrow>
                (WARNING, ''Tagname '' @ n
                   @ '' could not be parsed as <Major>.<Minor>.<Patch> Version'')
                  \<in> set (logged (find_previous_versions refs p s)))"
proof (intro conjI ballI allI impI)
  fix v
  assume "v \<in> set (previous_versions (find_previous_versions refs p s))"
  then obtain n where n: "TagReference n \<in> set refs" "startswith n p" "endswith n s"
    "parse (extracted_version n p s) = Inr v"
    using scan_follows_line_20[of refs p s] by blast
  with assms have "parse (strip_affixes n p s) = Inr v" by simp
  with n show "\<exists>n. TagReference n \<in> set refs \<and> startswith n p \<and> endswith n s \<and>
                parse (strip_affixes n p s) = Inr v" by blast
next
  fix n v
  assume a: "TagReference n \<in> set refs \<and> startswith n p \<and> endswith n s \<and>
                parse (strip_affixes n p s) = Inr v"
  with assms have "parse (extracted_version n p s) = Inr v" by simp
  with a show "\<exists>w \<in> set (previous_versions (find_previous_versions refs p s)). Version_eq w v"
    using scan_follows_line_20[of refs p s] by blast
next
  fix n e
  assume a: "TagReference n \<in> set refs \<and> startswith n p \<and> endswith n s \<and>
                parse (strip_affixes n p s) = Inl e"
  with assms have "parse (extracted_version n p s) = Inl e" by simp
  with a show "(WARNING, ''Tagname '' @ n
                   @ '' could not be parsed as <Major>.<Minor>.<Patch> Version'')
                  \<in> set (logged (find_previous_versions refs p s))"
    using scan_follows_line_20[of refs p s] by blast
qed

section \<open>Facts about \<open>filter_versions\<close>\<close>

lemma version_set_append:
  "version_set (xs @ ys) =
     (version_set xs \<and> version_set ys \<and> (\<forall>w \<in> set xs. \<forall>v \<in> set ys. \<not> Version_eq w v))"
  by (induction xs) (auto simp: list_ex_iff)

lemma version_set_add_version: "version_set vs \<Longrightarrow> version_set (add_version v vs)"
  by (auto simp: add_version_def version_set_append list_ex_iff)

lemma visit_ref_version_set:
  "version_set (previous_versions st) \<Longrightarrow> version_set (previous_versions (visit_ref p s st r))"
  by (cases r) (auto simp: visit_ref_def Let_def version_set_add_version split: sum.splits)

lemma foldl_version_set:
  "version_set (previous_versions st) \<Longrightarrow>
   version_set (previous_versions (foldl (visit_ref p s) st refs))"
  by (induction refs arbitrary: st) (simp_all add: visit_ref_version_set)

lemma find_previous_versions_version_set:
  "version_set (previous_versions (find_previous_versions refs p s))"
  by (simp add: find_previous_versions_def foldl_version_set)

lemma add_version_fresh:
  "\<forall>w \<in> set vs. \<not> Version_eq w v \<Longrightarrow> add_version v vs = vs @ [v]"
  by (simp add: add_version_def list_ex_iff)

lemma foldl_filter_step:
  assumes "version_set (xs @ vs)" "set acc \<subseteq> set xs"
  shows "foldl (\<lambda>fs v. if P v then add_version v fs else fs) acc vs = acc @ filter P vs"
  using assms
proof (induction vs arbitrary: acc xs)
  case Nil
  show ?case by simp
next
  case (Cons v vs)
  from Cons.prems(1) have fresh: "\<forall>w \<in> set xs. \<not> Version_eq w v"
    by (simp add: version_set_append)
  from Cons.prems(1) have vs': "version_set ((xs @ [v]) @ vs)"
    by (simp add: version_set_append list_ex_iff)
  show ?case
  proof (cases "P v")
    case True
    from fresh Cons.prems(2) have "add_version v acc = acc @ [v]"
      by (intro add_version_fresh) blast
    moreover have "set (acc @ [v]) \<subseteq> set (xs @ [v])" using Cons.prems(2) by auto
    ultimately show ?thesis using Cons.IH[OF vs'] True by simp
  next
    case False
    have "set acc \<subseteq> set (xs @ [v])" using Cons.prems(2) by auto
    then show ?thesis using Cons.IH[OF vs'] False by simp
  qed
qed

lemma filter_versions_Some:
  assumes "version_set versions"
  shows "filter_versions versions (Some fma) fminor =
           filter (\<lambda>v. major v = fma \<and> (fminor = None \<or> minor v = the fminor)) versions"
proof -
  have "foldl (\<lambda>fs v. if major v = fma \<and> (fminor = None \<or> minor v = the fminor)
                        then add_version v fs else fs) [] versions
        = [] @ filter (\<lambda>v. major v = fma \<and> (fminor = None \<or> minor v = the fminor)) versions"
    by (rule foldl_filter_step[where xs = "[]"]) (simp_all add: assms)
  moreover have "(\<lambda>fs v. if major v = fma then
                     (if fminor = None \<or> minor v = the fminor then add_version v fs else fs)
                   else fs)
               = (\<lambda>fs v. if major v = fma \<and> (fminor = None \<or> minor v = the fminor)
                        then add_version v fs else fs)"
    by (intro ext) simp
  ultimately show ?thesis by (simp add: filter_versions_def)
qed

lemma filter_versions_subset: "set (filter_versions versions fmajor fminor) \<subseteq> set versions"
proof (cases fmajor)
  case None
  then show ?thesis by (simp add: filter_versions_def)
next
  case (Some fma)
  have "set (foldl (\<lambda>fs v. if major v = fma then
                     (if fminor = None \<or> minor v = the fminor then add_version v fs else fs)
                   else fs) acc vs) \<subseteq> set acc \<union> set vs" for acc vs
  proof (induction vs arbitrary: acc)
    case Nil
    show ?case by simp
  next
    case (Cons v vs)
    show ?case using Cons.IH[of "add_version v acc"] Cons.IH[of acc] set_add_version[of v acc]
      by (auto split: if_splits)
  qed
  from this[of "[]" versions] Some show ?thesis by (simp add: filter_versions_def)
qed

lemma versions_of_nonneg:
  "v \<in> set (versions_of opts git_repo) \<Longrightarrow> 0 \<le> major v \<and> 0 \<le> minor v \<and> 0 \<le> patch v"
  unfolding versions_of_def find_previous_versions_def
  using foldl_versions_from parse_nonneg
  by (metis empty_iff empty_set found.select_convs(1))

section \<open>Facts about a run\<close>

lemma increased_version_plain:
  assumes "increased_version vs fs fmajor fminor = Inr (v, lg)"
  shows "prerelease v = None \<and> build v = None"
proof -
  have init: "Version_init a b c = Inr w \<Longrightarrow> prerelease w = None \<and> build w = None" for a b c w
    by (auto simp: Version_init_def split: if_splits)
  have mapped: "map_sum id (\<lambda>u. (u, l)) (Version_init a b c) = Inr (v, lg)
                  \<Longrightarrow> prerelease v = None \<and> build v = None" for a b c l
    using init by (cases "Version_init a b c") auto
  consider (none) "length vs = 0" | (new) "length vs \<noteq> 0" "length fs = 0"
    | (bump) "length vs \<noteq> 0" "length fs \<noteq> 0" by blast
  then show ?thesis
  proof cases
    case none
    with assms show ?thesis using mapped by (simp add: increased_version_def)
  next
    case new
    with assms show ?thesis using mapped
      by (cases fmajor) (simp_all add: increased_version_def)
  next
    case bump
    with assms show ?thesis using mapped
      by (cases "max_version fs") (simp_all add: increased_version_def bump_patch_def)
  qed
qed

lemma strip_SNAPSHOT: "strip ''SNAPSHOT'' \<noteq> []"
  by code_simp

lemma str_Version_plain:
  "prerelease v = None \<Longrightarrow> build v = None \<Longrightarrow>
   str_Version v = str_int (major v) @ ''.'' @ str_int (minor v) @ ''.'' @ str_int (patch v)"
  by (simp add: str_Version_def truthy_def)

lemma fetch_and_pull_writes_no_tag: "\<not> list_ex writes_tag (fst (fetch_and_pull_remotes git_repo))"
  by (auto simp: fetch_and_pull_remotes_def list_ex_iff)

lemma pull_ops_write_no_tag:
  "\<not> list_ex writes_tag
       (fst (if pull_before opts then fetch_and_pull_remotes git_repo else ([], [])))"
  using fetch_and_pull_writes_no_tag by simp

lemma emitted_keeps_errors: "(ERROR, m) \<in> set recs \<Longrightarrow> ''ERROR: '' @ m \<in> set (emitted vb recs)"
  by (force simp: emitted_def level_name_def)

lemma visit_ref_no_error:
  "\<forall>r \<in> set (logged st). fst r \<noteq> ERROR \<Longrightarrow>
   \<forall>r \<in> set (logged (visit_ref p s st ref)). fst r \<noteq> ERROR"
  by (cases ref) (auto simp: visit_ref_def Let_def split: sum.splits)

lemma foldl_no_error:
  "\<forall>r \<in> set (logged st). fst r \<noteq> ERROR \<Longrightarrow>
   \<forall>r \<in> set (logged (foldl (visit_ref p s) st refs)). fst r \<noteq> ERROR"
proof (induction refs arbitrary: st)
  case Nil
  then show ?case by simp
next
  case (Cons r refs)
  from Cons.prems have "\<forall>x \<in> set (logged (visit_ref p s st r)). fst x \<noteq> ERROR"
    by (rule visit_ref_no_error)
  then show ?case using Cons.IH[of "visit_ref p s st r"] by simp
qed

lemma find_previous_versions_no_error:
  "\<forall>r \<in> set (logged (find_previous_versions refs p s)). fst r \<noteq> ERROR"
  unfolding find_previous_versions_def by (rule foldl_no_error) simp

lemma pull_log_no_error:
  "\<forall>r \<in> set (snd (if pull_before opts then fetch_and_pull_remotes git_repo else ([], []))).
     fst r \<noteq> ERROR"
  by (auto simp: fetch_and_pull_remotes_def)

lemma increased_version_no_error:
  assumes "increased_version vs fs fmajor fminor = Inr (v, lg)"
  shows "\<forall>r \<in> set lg. fst r \<noteq> ERROR"
proof -
  have mapped: "map_sum id (\<lambda>u. (u, l)) x = Inr (v, lg) \<Longrightarrow> lg = l" for l and x :: "py_error + Version"
    by (cases x) auto
  consider (none) "length vs = 0" | (new) "length vs \<noteq> 0" "length fs = 0"
    | (bump) "length vs \<noteq> 0" "length fs \<noteq> 0" by blast
  then show ?thesis
  proof cases
    case none
    with assms have "lg = []" using mapped by (simp add: increased_version_def)
    then show ?thesis by simp
  next
    case new
    with assms have "lg = []" using mapped
      by (cases fmajor) (simp_all add: increased_version_def)
    then show ?thesis by simp
  next
    case bump
    show ?thesis
    proof (cases "max_version fs")
      case (Inl e)
      with assms bump show ?thesis by (simp add: increased_version_def)
    next
      case (Inr m)
      with assms bump have "lg = [(INFO, ''Max Version is '' @ str_Version m)]"
        using mapped by (simp add: increased_version_def)
      then show ?thesis by simp
    qed
  qed
qed

lemma emitted_no_error:
  assumes "\<forall>r \<in> set recs. fst r \<noteq> ERROR"
  shows "''ERROR: '' @ m \<notin> set (emitted vb recs)"
proof
  assume "''ERROR: '' @ m \<in> set (emitted vb recs)"
  then obtain l m' where lm: "(l, m') \<in> set recs" "''ERROR: '' @ m = level_name l @ '': '' @ m'"
    by (auto simp: emitted_def)
  with assms have "l \<noteq> ERROR" by fastforce
  with lm(2) show False by (cases l) (simp_all add: level_name_def)
qed

section \<open>Rendering and parsing\<close>

lemma digits_table:
  "\<forall>k<10. is_digit (''0123456789'' ! k) \<and> digit_val (''0123456789'' ! k) = k"
  by code_simp

lemma digit_char_is_digit: "is_digit (digit_char n)"
  using digits_table by (simp add: digit_char_def)

lemma digit_val_digit_char: "digit_val (digit_char n) = n mod 10"
  using digits_table by (simp add: digit_char_def)

lemma digit_char_zero: "digit_char n = CHR ''0'' \<Longrightarrow> n mod 10 = 0"
  using digit_val_digit_char[of n] by (simp add: digit_val_def)

lemma str_nat_small: "n < 10 \<Longrightarrow> str_nat n = [digit_char n]"
  by (subst str_nat.simps) simp

lemma str_nat_large: "\<not> n < 10 \<Longrightarrow> str_nat n = str_nat (n div 10) @ [digit_char n]"
  by (subst str_nat.simps) simp

lemma str_nat_digits: "list_all is_digit (str_nat n) \<and> str_nat n \<noteq> []"
proof (induction n rule: str_nat.induct)
  case (1 n)
  show ?case
  proof (cases "n < 10")
    case True
    then show ?thesis by (simp add: str_nat_small digit_char_is_digit)
  next
    case False
    with 1 have "list_all is_digit (str_nat (n div 10))" by blast
    with False show ?thesis by (simp add: str_nat_large digit_char_is_digit)
  qed
qed

lemma str_nat_hd: "0 < n \<Longrightarrow> hd (str_nat n) \<noteq> CHR ''0''"
proof (induction n rule: str_nat.induct)
  case (1 n)
  show ?case
  proof (cases "n < 10")
    case True
    with "1.prems" have nz: "n mod 10 \<noteq> 0" by simp
    have "digit_char n \<noteq> CHR ''0''"
    proof
      assume "digit_char n = CHR ''0''"
      then have "n mod 10 = 0" by (rule digit_char_zero)
      with nz show False by simp
    qed
    with True show ?thesis by (simp add: str_nat_small)
  next
    case False
    then have pos: "0 < n div 10" by simp
    from "1.IH"[OF False pos] have "hd (str_nat (n div 10)) \<noteq> CHR ''0''" .
    moreover have "str_nat (n div 10) \<noteq> []" using str_nat_digits by blast
    ultimately show ?thesis using False by (simp add: str_nat_large)
  qed
qed

lemma str_nat_zero: "str_nat 0 = ''0''"
  by (simp add: str_nat_small digit_char_def)

lemma numeric_id_str_nat: "numeric_id (str_nat n)"
  using str_nat_digits[of n] str_nat_hd[of n] str_nat_zero
  by (cases "n = 0") (simp_all add: numeric_id_def)

lemma int_of_digits_snoc: "int_of_digits (s @ [c]) = 10 * int_of_digits s + digit_val c"
  by (simp add: int_of_digits_def)

lemma int_of_digits_str_nat: "int_of_digits (str_nat n) = n"
proof (induction n rule: str_nat.induct)
  case (1 n)
  show ?case
  proof (cases "n < 10")
    case True
    then show ?thesis
      by (simp add: str_nat_small int_of_digits_def digit_val_digit_char)
  next
    case False
    with 1 have "int_of_digits (str_nat (n div 10)) = n div 10" by blast
    with False show ?thesis
      by (simp add: str_nat_large int_of_digits_snoc digit_val_digit_char)
  qed
qed

lemma takeWhile_digits_stop:
  "list_all is_digit ds \<Longrightarrow> \<not> is_digit c \<Longrightarrow> takeWhile is_digit (ds @ c # r) = ds"
  by (induction ds) simp_all

lemma dropWhile_digits_stop:
  "list_all is_digit ds \<Longrightarrow> \<not> is_digit c \<Longrightarrow> dropWhile is_digit (ds @ c # r) = c # r"
  by (induction ds) simp_all

lemma dot_no_digit: "\<not> is_digit (CHR ''.'')"
  by (simp add: is_digit_def)

lemma match_number_dot_str_nat:
  "match_number_dot (str_nat n @ CHR ''.'' # r) = Some (str_nat n, r)"
  using str_nat_digits[of n] numeric_id_str_nat[of n] dot_no_digit
  by (simp add: match_number_dot_def takeWhile_digits_stop dropWhile_digits_stop)

lemma regex_match_rendered:
  "regex_match (str_nat a @ CHR ''.'' # str_nat b @ CHR ''.'' # str_nat c)
     = Some (str_nat a, str_nat b, str_nat c, None, None)"
proof -
  have tw: "takeWhile is_digit (str_nat c) = str_nat c"
    using str_nat_digits[of c] by (simp add: takeWhile_eq_all_conv list_all_iff)
  have dw: "dropWhile is_digit (str_nat c) = []"
    using str_nat_digits[of c] by (simp add: list_all_iff)
  have tl: "match_tail [] = Some (None, None)"
    by (simp add: match_tail_def)
  show ?thesis
    by (simp add: regex_match_def match_number_dot_str_nat tw dw tl numeric_id_str_nat)
qed

lemma rendered_no_line_feed:
  "last (str_nat a @ CHR ''.'' # str_nat b @ CHR ''.'' # str_nat c) \<noteq> CHR 0x0A"
proof -
  have ne: "str_nat c \<noteq> []" using str_nat_digits[of c] by simp
  then have "last (str_nat c) \<in> set (str_nat c)" by simp
  then have "is_digit (last (str_nat c))" using str_nat_digits[of c] by (simp add: list_all_iff)
  then have "last (str_nat c) \<noteq> CHR 0x0A" by (auto simp: is_digit_def)
  moreover have "last (str_nat a @ CHR ''.'' # str_nat b @ CHR ''.'' # str_nat c)
                 = last (str_nat c)"
    using ne by simp
  ultimately show ?thesis by simp
qed

lemma parse_rendered:
  "parse (str_nat a @ CHR ''.'' # str_nat b @ CHR ''.'' # str_nat c)
     = Inr (version_of (int a) (int b) (int c))"
proof -
  let ?s = "str_nat a @ CHR ''.'' # str_nat b @ CHR ''.'' # str_nat c"
  have "(if ?s \<noteq> [] \<and> last ?s = CHR 0x0A then butlast ?s else ?s) = ?s"
    using rendered_no_line_feed[of a b c] by simp
  then have "parse ?s = (case regex_match ?s of
        None \<Rightarrow> Inl ValueError
      | Some (ma, mi, pa, pre, bld) \<Rightarrow>
          Inr \<lparr>major = int (int_of_digits ma), minor = int (int_of_digits mi),
               patch = int (int_of_digits pa), prerelease = pre, build = bld\<rparr>)"
    unfolding parse_def by (simp only:)
  then show ?thesis
    by (simp add: regex_match_rendered int_of_digits_str_nat version_of_def)
qed

lemma strip_affixes_exact: "strip_affixes (pre @ body @ suf) pre suf = body"
  by (simp add: strip_affixes_def)

text \<open>
  Rendering without snapshot mode and stripping exactly the leading prefix and the
  trailing suffix gives back the version, for every prefix and suffix.
\<close>

lemma exact_strip_round_trip:
  assumes "0 \<le> ma" "0 \<le> mi" "0 \<le> pa"
  shows "parse (strip_affixes
           (generate_version_name (version_of ma mi pa) pre suf False pv) pre suf)
         = Inr (version_of ma mi pa)"
proof -
  let ?body = "str_nat (nat ma) @ CHR ''.'' # str_nat (nat mi) @ CHR ''.'' # str_nat (nat pa)"
  have "generate_version_name (version_of ma mi pa) pre suf False pv = pre @ ?body @ suf"
    using assms
    by (simp add: generate_version_name_def str_Version_def truthy_def version_of_def
        str_int_def)
  then have "strip_affixes (generate_version_name (version_of ma mi pa) pre suf False pv)
               pre suf = ?body"
    by (simp only: strip_affixes_exact)
  then show ?thesis
    using assms parse_rendered[of "nat ma" "nat mi" "nat pa"] by simp
qed

section \<open>When line 20 strips exactly\<close>

lemma startswith_Cons:
  "old \<noteq> [] \<Longrightarrow> hd old \<noteq> c \<Longrightarrow> \<not> startswith (c # cs) old"
  by (cases old) (auto simp: startswith_def)

lemma startswith_append: "startswith (old @ r) old"
  by (simp add: startswith_def)

lemma replace_scan_Nil: "replace_scan old new [] = []"
  by (subst replace_scan.simps) simp

lemma replace_scan_skip:
  "old \<noteq> [] \<Longrightarrow> hd old \<noteq> c \<Longrightarrow>
   replace_scan old new (c # cs) = c # replace_scan old new cs"
  by (subst replace_scan.simps) (simp add: startswith_Cons)

lemma replace_scan_hit:
  "old \<noteq> [] \<Longrightarrow> replace_scan old new (old @ r) = new @ replace_scan old new r"
  by (subst replace_scan.simps) (simp add: startswith_append)

lemma replace_scan_through:
  "old \<noteq> [] \<Longrightarrow> hd old \<notin> set b \<Longrightarrow>
   replace_scan old new (b @ r) = b @ replace_scan old new r"
  by (induction b) (simp_all add: replace_scan_skip)

lemma replace_empty_old: "replace s [] [] = s"
  by (induction s) (simp_all add: replace_def)

text \<open>
  The leading prefix and the trailing suffix are the only occurrences that line 20
  removes when neither the prefix nor the suffix starts with a character of the text
  between them, and the prefix does not occur in the suffix.
\<close>

lemma extracted_version_exact:
  assumes "pre = [] \<or> hd pre \<notin> set body"
    and "suf = [] \<or> hd suf \<notin> set body"
    and "replace suf pre [] = suf"
  shows "extracted_version (pre @ body @ suf) pre suf = body"
proof -
  have inner: "replace (pre @ body @ suf) pre [] = body @ suf"
  proof (cases "pre = []")
    case True
    then show ?thesis by (simp add: replace_empty_old)
  next
    case False
    with assms(1) have "hd pre \<notin> set body" by simp
    with False have "replace_scan pre [] (pre @ body @ suf) = body @ replace_scan pre [] suf"
      by (simp add: replace_scan_hit replace_scan_through)
    moreover from assms(3) False have "replace_scan pre [] suf = suf"
      by (simp add: replace_def)
    ultimately show ?thesis using False by (simp add: replace_def)
  qed
  have outer: "replace (body @ suf) suf [] = body"
  proof (cases "suf = []")
    case True
    then show ?thesis by (simp add: replace_empty_old)
  next
    case False
    with assms(2) have "hd suf \<notin> set body" by simp
    with False have "replace_scan suf [] (body @ suf) = body @ replace_scan suf [] suf"
      by (rule replace_scan_through)
    moreover have "replace_scan suf [] suf = []"
      using replace_scan_hit[OF False, of "[]" "[]"] by (simp add: replace_scan_Nil)
    ultimately have "replace_scan suf [] (body @ suf) = body" by simp
    with False show ?thesis by (simp add: replace_def replace_scan_Nil)
  qed
  show ?thesis by (simp add: extracted_version_def inner outer)
qed

lemma set_rendered:
  assumes "x \<in> set (str_nat a @ CHR ''.'' # str_nat b @ CHR ''.'' # str_nat c)"
  shows "is_digit x \<or> x = CHR ''.''"
proof -
  have "\<forall>y \<in> set (str_nat n). is_digit y" for n
    using str_nat_digits[of n] by (simp add: list_all_iff)
  from this[of a] this[of b] this[of c] assms show ?thesis by auto
qed

text \<open>
  The round trip through line 20 for such a prefix and suffix: neither starts with a
  digit or a dot, and the prefix does not occur in the suffix.
\<close>

lemma replace_round_trip:
  assumes "0 \<le> ma" "0 \<le> mi" "0 \<le> pa"
    and "pre = [] \<or> (\<not> is_digit (hd pre) \<and> hd pre \<noteq> CHR ''.'')"
    and "suf = [] \<or> (\<not> is_digit (hd suf) \<and> hd suf \<noteq> CHR ''.'')"
    and "replace suf pre [] = suf"
  shows "parse (extracted_version
           (generate_version_name (version_of ma mi pa) pre suf False pv) pre suf)
         = Inr (version_of ma mi pa)"
proof -
  let ?body = "str_nat (nat ma) @ CHR ''.'' # str_nat (nat mi) @ CHR ''.'' # str_nat (nat pa)"
  have name: "generate_version_name (version_of ma mi pa) pre suf False pv = pre @ ?body @ suf"
    using assms(1-3)
    by (simp add: generate_version_name_def str_Version_def truthy_def version_of_def
        str_int_def)
  have p: "pre = [] \<or> hd pre \<notin> set ?body"
    using assms(4) set_rendered[of "hd pre" "nat ma" "nat mi" "nat pa"] by blast
  have s: "suf = [] \<or> hd suf \<notin> set ?body"
    using assms(5) set_rendered[of "hd suf" "nat ma" "nat mi" "nat pa"] by blast
  have "extracted_version (pre @ ?body @ suf) pre suf = ?body"
    using p s assms(6) by (rule extracted_version_exact)
  with name have "extracted_version
      (generate_version_name (version_of ma mi pa) pre suf False pv) pre suf = ?body"
    by (simp only:)
  then show ?thesis
    using assms(1-3) parse_rendered[of "nat ma" "nat mi" "nat pa"] by simp
qed

text \<open>With the default prefix \<open>v\<close> and the default empty suffix the round trip holds.\<close>

lemma replace_round_trip_default:
  assumes "0 \<le> ma" "0 \<le> mi" "0 \<le> pa"
  shows "parse (extracted_version
           (generate_version_name (version_of ma mi pa) ''v'' [] False pv) ''v'' [])
         = Inr (version_of ma mi pa)"
proof -
  have r: "replace [] ''v'' [] = []"
    by (simp add: replace_def replace_scan_Nil)
  have p: "''v'' = [] \<or> (\<not> is_digit (hd ''v'') \<and> hd ''v'' \<noteq> CHR ''.'')"
    by (simp add: is_digit_def)
  have s: "[] = [] \<or> (\<not> is_digit (hd []) \<and> hd [] \<noteq> CHR ''.'')"
    by simp
  from assms p s r show ?thesis by (rule replace_round_trip)
qed

section \<open>The claims\<close>

text \<open>
  C1. Whenever the filtered set is not empty, the version selected is the patch bump of
  a greatest element of the filtered set in the order by (major, minor, patch): it has
  the major and minor of that element and its patch plus one, and nothing else.
\<close>

theorem nonempty_filtered_bumps_max:
  assumes "filtered_versions_of opts git_repo \<noteq> []"
  shows "\<exists>m \<in> set (filtered_versions_of opts git_repo).
           (\<forall>v \<in> set (filtered_versions_of opts git_repo). key_le v m) \<and>
           selection opts git_repo =
             Inr (\<lparr>major = major m, minor = minor m, patch = patch m + 1,
                   prerelease = None, build = None\<rparr>,
                  [(INFO, ''Max Version is '' @ str_Version m)])"
proof -
  let ?fs = "filtered_versions_of opts git_repo"
  let ?vs = "versions_of opts git_repo"
  from max_version_key[OF assms] obtain m where m: "m \<in> set ?fs" "max_version ?fs = Inr m"
    "\<forall>u \<in> set ?fs. key_le u m" by blast
  have sub: "set ?fs \<subseteq> set ?vs"
    unfolding filtered_versions_of_def by (rule filter_versions_subset)
  with m(1) have "m \<in> set ?vs" by blast
  then have nn: "0 \<le> major m" "0 \<le> minor m" "0 \<le> patch m"
    using versions_of_nonneg by blast+
  then have bump: "bump_patch m =
      Inr \<lparr>major = major m, minor = minor m, patch = patch m + 1, prerelease = None, build = None\<rparr>"
    by (simp add: bump_patch_def Version_init_ok)
  from sub assms have "?vs \<noteq> []" by auto
  with assms m(2) bump have "selection opts git_repo =
      Inr (\<lparr>major = major m, minor = minor m, patch = patch m + 1,
            prerelease = None, build = None\<rparr>, [(INFO, ''Max Version is '' @ str_Version m)])"
    by (simp add: selection_def increased_version_def)
  with m(1,3) show ?thesis by blast
qed

theorem nonempty_filtered_bumps_max_witness:
  "filtered_versions_of default_options (repo_with_tags [''v1.0.0'', ''v1.1.0'', ''v2.0.0'']) \<noteq> []
   \<and> selection default_options (repo_with_tags [''v1.0.0'', ''v1.1.0'', ''v2.0.0'']) =
        Inr (version_of 2 0 1, [(INFO, ''Max Version is 2.0.0'')])"
proof -
  let ?o = "default_options"
  let ?r = "repo_with_tags [''v1.0.0'', ''v1.1.0'', ''v2.0.0'']"
  have fs: "filtered_versions_of ?o ?r = [version_of 1 0 0, version_of 1 1 0, version_of 2 0 0]"
    by code_simp
  then have h: "filtered_versions_of ?o ?r \<noteq> []" by simp
  from nonempty_filtered_bumps_max[OF h] obtain m where
    m: "m \<in> set (filtered_versions_of ?o ?r)"
    and top: "\<forall>v \<in> set (filtered_versions_of ?o ?r). key_le v m"
    and sel: "selection ?o ?r =
      Inr (\<lparr>major = major m, minor = minor m, patch = patch m + 1,
            prerelease = None, build = None\<rparr>, [(INFO, ''Max Version is '' @ str_Version m)])"
    by blast
  from top fs have "key_le (version_of 2 0 0) m" by simp
  with m fs have "m = version_of 2 0 0"
    by (auto simp: key_le_def version_of_def)
  moreover have "str_Version (version_of 2 0 0) = ''2.0.0''" by code_simp
  ultimately have "selection ?o ?r = Inr (version_of 2 0 1, [(INFO, ''Max Version is 2.0.0'')])"
    using sel by (simp add: version_of_def)
  with h show ?thesis by simp
qed

text \<open>
  C2. When no tag gives a version, the version selected is 1.0.0, whatever the filters
  are.
\<close>

theorem empty_version_set_selects_1_0_0:
  assumes "versions_of opts git_repo = []"
  shows "selection opts git_repo =
           Inr (\<lparr>major = 1, minor = 0, patch = 0, prerelease = None, build = None\<rparr>, [])"
  using assms by (simp add: selection_def increased_version_def Version_init_def)

theorem empty_version_set_selects_1_0_0_witness:
  "versions_of (default_options\<lparr>filter_major_version := Some 4\<rparr>)
     (repo_with_tags [''1.2.3'', ''v1.2'', ''nightly'']) = []
   \<and> selection (default_options\<lparr>filter_major_version := Some 4\<rparr>)
       (repo_with_tags [''1.2.3'', ''v1.2'', ''nightly'']) = Inr (version_of 1 0 0, [])"
proof -
  have h: "versions_of (default_options\<lparr>filter_major_version := Some 4\<rparr>)
     (repo_with_tags [''1.2.3'', ''v1.2'', ''nightly'']) = []"
    by code_simp
  show ?thesis
    using h empty_version_set_selects_1_0_0[OF h] by (simp add: version_of_def)
qed

text \<open>
  C3, as amended. When there are versions but none passes the filter, and neither filter
  value is negative, the major filter is set and the version selected is
  filter-major.(filter-minor or 0).0.
\<close>

theorem empty_filtered_starts_new_line:
  assumes "versions_of opts git_repo \<noteq> []"
    and "filtered_versions_of opts git_repo = []"
    and "case filter_major_version opts of None \<Rightarrow> True | Some fma \<Rightarrow> 0 \<le> fma"
    and "case filter_minor_version opts of None \<Rightarrow> True | Some fmi \<Rightarrow> 0 \<le> fmi"
  shows "filter_major_version opts \<noteq> None \<and>
         selection opts git_repo =
           Inr (\<lparr>major = the (filter_major_version opts),
                 minor = (case filter_minor_version opts of None \<Rightarrow> 0 | Some fmi \<Rightarrow> fmi),
                 patch = 0, prerelease = None, build = None\<rparr>, [])"
proof -
  from assms(1,2) have set: "filter_major_version opts \<noteq> None"
    by (cases "filter_major_version opts")
       (simp_all add: filtered_versions_of_def filter_versions_def)
  then obtain fma where fma: "filter_major_version opts = Some fma" by blast
  with assms(3) have "0 \<le> fma" by simp
  moreover have "0 \<le> (case filter_minor_version opts of None \<Rightarrow> 0
                        | Some mi \<Rightarrow> if mi \<noteq> 0 then mi else 0)"
    using assms(4) by (simp split: option.splits)
  moreover have "(case filter_minor_version opts of None \<Rightarrow> 0
                    | Some mi \<Rightarrow> if mi \<noteq> 0 then mi else 0)
               = (case filter_minor_version opts of None \<Rightarrow> 0 | Some fmi \<Rightarrow> fmi)"
    by (simp split: option.splits)
  ultimately show ?thesis
    using assms(1,2) fma by (simp add: selection_def increased_version_def Version_init_ok)
qed

theorem empty_filtered_starts_new_line_witness:
  "versions_of (default_options\<lparr>filter_major_version := Some 3\<rparr>) (repo_with_tags [''v1.0.0''])
     \<noteq> []
   \<and> filtered_versions_of (default_options\<lparr>filter_major_version := Some 3\<rparr>)
       (repo_with_tags [''v1.0.0'']) = []
   \<and> selection (default_options\<lparr>filter_major_version := Some 3\<rparr>) (repo_with_tags [''v1.0.0''])
       = Inr (version_of 3 0 0, [])"
proof -
  let ?o = "default_options\<lparr>filter_major_version := Some 3\<rparr>"
  let ?r = "repo_with_tags [''v1.0.0'']"
  have h1: "versions_of ?o ?r \<noteq> []" by code_simp
  have h2: "filtered_versions_of ?o ?r = []" by code_simp
  have h3: "case filter_major_version ?o of None \<Rightarrow> True | Some fma \<Rightarrow> 0 \<le> fma"
    by (simp add: default_options_def)
  have h4: "case filter_minor_version ?o of None \<Rightarrow> True | Some fmi \<Rightarrow> 0 \<le> fmi"
    by (simp add: default_options_def)
  show ?thesis
    using h1 h2 empty_filtered_starts_new_line[OF h1 h2 h3 h4]
    by (simp add: default_options_def version_of_def)
qed

theorem negative_filter_counterexample:
  "versions_of (default_options\<lparr>filter_major_version := Some (- 1)\<rparr>) (repo_with_tags [''v1.0.0''])
     \<noteq> []
   \<and> filtered_versions_of (default_options\<lparr>filter_major_version := Some (- 1)\<rparr>)
       (repo_with_tags [''v1.0.0'']) = []
   \<and> selection (default_options\<lparr>filter_major_version := Some (- 1)\<rparr>)
       (repo_with_tags [''v1.0.0'']) = Inl ValueError
   \<and> selection (default_options\<lparr>filter_major_version := Some (- 1)\<rparr>)
       (repo_with_tags [''v1.0.0'']) \<noteq> Inr (version_of (- 1) 0 0, [])
   \<and> uncaught (calculate_new_version (default_options\<lparr>filter_major_version := Some (- 1)\<rparr>)
       (repo_with_tags [''v1.0.0''])) = Some ValueError"
  by code_simp

text \<open>
  C4, as amended. In a run without the flag create-no-git-tag, when the rendered name is
  among the names of the existing tags, the run fails: the collision is written to
  standard error, the exit status is 1, nothing is printed, and no tag is created or
  pushed.
\<close>

theorem collision_fails_without_dry_run:
  assumes "\<not> create_no_git_tag opts"
    and "selection opts git_repo = Inr (v, lg)"
    and "new_version_tag_name opts v \<in> set (all_git_tags (find_previous_versions
           (references git_repo) (version_prefix opts) (version_suffix opts)))"
  shows "exit_status (calculate_new_version opts git_repo) = 1
         \<and> stdout (calculate_new_version opts git_repo) = []
         \<and> ''ERROR: Could not create '' @ new_version_tag_name opts v
             @ '' git-tag, because it already exsists''
             \<in> set (stderr (calculate_new_version opts git_repo))
         \<and> \<not> list_ex writes_tag (git_ops (calculate_new_version opts git_repo))
         \<and> uncaught (calculate_new_version opts git_repo) = None"
proof -
  obtain ops0 log0 where pre:
    "(if pull_before opts then fetch_and_pull_remotes git_repo else ([], [])) = (ops0, log0)"
    by (cases "if pull_before opts then fetch_and_pull_remotes git_repo else ([], [])")
  with pull_ops_write_no_tag[of opts git_repo] have ops0: "\<not> list_ex writes_tag ops0"
    by simp
  let ?fnd = "find_previous_versions (references git_repo) (version_prefix opts)
                (version_suffix opts)"
  let ?name = "new_version_tag_name opts v"
  have out: "calculate_new_version opts git_repo =
      \<lparr>exit_status = 1, stdout = [],
       stderr = emitted (verbose opts)
         ((log0 @ logged ?fnd @ lg) @ [(ERROR, ''Could not create '' @ ?name
                     @ '' git-tag, because it already exsists'')]),
       git_ops = ops0, uncaught = None\<rparr>"
    using assms pre by (simp add: calculate_new_version_def Let_def)
  have "''ERROR: '' @ (''Could not create '' @ ?name @ '' git-tag, because it already exsists'')
          \<in> set (emitted (verbose opts)
         ((log0 @ logged ?fnd @ lg) @ [(ERROR, ''Could not create '' @ ?name
                     @ '' git-tag, because it already exsists'')]))"
    by (rule emitted_keeps_errors) simp
  with out ops0 show ?thesis by simp
qed

theorem collision_fails_without_dry_run_witness:
  "\<not> create_no_git_tag (default_options\<lparr>create_snapshot_version := True\<rparr>)
   \<and> selection (default_options\<lparr>create_snapshot_version := True\<rparr>)
       (repo_with_tags [''v1.0.0'', ''v1.0-SNAPSHOT''])
       = Inr (version_of 1 0 1, [(INFO, ''Max Version is 1.0.0'')])
   \<and> new_version_tag_name (default_options\<lparr>create_snapshot_version := True\<rparr>)
       (version_of 1 0 1) = ''v1.0-SNAPSHOT''
   \<and> exit_status (calculate_new_version (default_options\<lparr>create_snapshot_version := True\<rparr>)
       (repo_with_tags [''v1.0.0'', ''v1.0-SNAPSHOT''])) = 1
   \<and> stdout (calculate_new_version (default_options\<lparr>create_snapshot_version := True\<rparr>)
       (repo_with_tags [''v1.0.0'', ''v1.0-SNAPSHOT''])) = []
   \<and> ''ERROR: Could not create v1.0-SNAPSHOT git-tag, because it already exsists''
       \<in> set (stderr (calculate_new_version (default_options\<lparr>create_snapshot_version := True\<rparr>)
           (repo_with_tags [''v1.0.0'', ''v1.0-SNAPSHOT''])))
   \<and> \<not> list_ex writes_tag
         (git_ops (calculate_new_version (default_options\<lparr>create_snapshot_version := True\<rparr>)
            (repo_with_tags [''v1.0.0'', ''v1.0-SNAPSHOT''])))"
proof -
  let ?o = "default_options\<lparr>create_snapshot_version := True\<rparr>"
  let ?r = "repo_with_tags [''v1.0.0'', ''v1.0-SNAPSHOT'']"
  have h1: "\<not> create_no_git_tag ?o" by (simp add: default_options_def)
  have h2: "selection ?o ?r = Inr (version_of 1 0 1, [(INFO, ''Max Version is 1.0.0'')])"
    by code_simp
  have n: "new_version_tag_name ?o (version_of 1 0 1) = ''v1.0-SNAPSHOT''"
    by code_simp
  have h3: "new_version_tag_name ?o (version_of 1 0 1)
              \<in> set (all_git_tags (find_previous_versions (references ?r)
                       (version_prefix ?o) (version_suffix ?o)))"
    by code_simp
  show ?thesis
    using h1 h2 n collision_fails_without_dry_run[OF h1 h2 h3] by simp
qed

theorem dry_run_collision_counterexample:
  "new_version_tag_name
       (default_options\<lparr>create_snapshot_version := True, create_no_git_tag := True\<rparr>)
       (version_of 1 0 1) = ''v1.0-SNAPSHOT''
   \<and> selection (default_options\<lparr>create_snapshot_version := True, create_no_git_tag := True\<rparr>)
       (repo_with_tags [''v1.0.0'', ''v1.0-SNAPSHOT''])
       = Inr (version_of 1 0 1, [(INFO, ''Max Version is 1.0.0'')])
   \<and> ''v1.0-SNAPSHOT'' \<in> set (all_git_tags (find_previous_versions
         (references (repo_with_tags [''v1.0.0'', ''v1.0-SNAPSHOT''])) ''v'' []))
   \<and> calculate_new_version
       (default_options\<lparr>create_snapshot_version := True, create_no_git_tag := True\<rparr>)
       (repo_with_tags [''v1.0.0'', ''v1.0-SNAPSHOT''])
       = \<lparr>exit_status = 0, stdout = [''v1.0-SNAPSHOT''], stderr = [],
          git_ops = [Fetch ''origin'', Pull ''origin''], uncaught = None\<rparr>
   \<and> exit_status (calculate_new_version
       (default_options\<lparr>create_snapshot_version := True, create_no_git_tag := True\<rparr>)
       (repo_with_tags [''v1.0.0'', ''v1.0-SNAPSHOT''])) \<noteq> 1"
  by code_simp

text \<open>
  C5. The tag name \<open>v1.v0.0\<close> starts with the prefix \<open>v\<close>; without the leading prefix
  it is \<open>1.v0.0\<close>, which is no version, yet line 20 removes both occurrences of \<open>v\<close> and
  the program parses \<open>1.0.0\<close>, takes it as a version and goes on to \<open>v1.0.1\<close>.
\<close>

theorem replace_removes_inner_occurrences:
  "startswith ''v1.v0.0'' ''v'' \<and> endswith ''v1.v0.0'' []
   \<and> strip_affixes ''v1.v0.0'' ''v'' [] = ''1.v0.0''
   \<and> parse ''1.v0.0'' = Inl ValueError
   \<and> extracted_version ''v1.v0.0'' ''v'' [] = ''1.0.0''
   \<and> versions_of default_options (repo_with_tags [''v1.v0.0'']) = [version_of 1 0 0]
   \<and> stdout (calculate_new_version default_options (repo_with_tags [''v1.v0.0''])) = [''v1.0.1'']"
  by code_simp

text \<open>
  C6. The tag name \<open>v1.v0.0\<close> matches the prefix \<open>v\<close> and its stripped remainder
  \<open>1.v0.0\<close> does not parse, yet the scan accepts 1.0.0 from it and logs no warning. The
  tag name \<open>11.0.0\<close> matches the prefix \<open>1\<close> and its stripped remainder \<open>1.0.0\<close> parses,
  yet the scan excludes it with a warning. The stripped remainder of \<open>v1.0.0-dev\<close> for the
  prefix \<open>v\<close> and the suffix \<open>-dev\<close> parses to 1.0.0, yet the version accepted has the
  prerelease \<open>de\<close>. What is accepted follows the text that line 20 leaves
  (\<open>scan_follows_line_20\<close>), which is the stripped remainder only where line 20 strips
  exactly (\<open>scan_accepts_exact_remainders\<close>).
\<close>

theorem acceptance_follows_replace:
  "startswith ''v1.v0.0'' ''v'' \<and> endswith ''v1.v0.0'' []
   \<and> parse (strip_affixes ''v1.v0.0'' ''v'' []) = Inl ValueError
   \<and> find_previous_versions [TagReference ''v1.v0.0''] ''v'' []
       = \<lparr>previous_versions = [version_of 1 0 0], all_git_tags = [''v1.v0.0''],
          logged = [(INFO, ''Tag v1.v0.0 found'')]\<rparr>
   \<and> startswith ''11.0.0'' ''1'' \<and> endswith ''11.0.0'' []
   \<and> parse (strip_affixes ''11.0.0'' ''1'' []) = Inr (version_of 1 0 0)
   \<and> find_previous_versions [TagReference ''11.0.0''] ''1'' []
       = \<lparr>previous_versions = [], all_git_tags = [''11.0.0''],
          logged = [(WARNING,
            ''Tagname 11.0.0 could not be parsed as <Major>.<Minor>.<Patch> Version'')]\<rparr>
   \<and> startswith ''v1.0.0-dev'' ''v'' \<and> endswith ''v1.0.0-dev'' ''-dev''
   \<and> parse (strip_affixes ''v1.0.0-dev'' ''v'' ''-dev'') = Inr (version_of 1 0 0)
   \<and> previous_versions (find_previous_versions [TagReference ''v1.0.0-dev''] ''v'' ''-dev'')
       = [\<lparr>major = 1, minor = 0, patch = 0, prerelease = Some ''de'', build = None\<rparr>]"
  by code_simp

text \<open>
  C7. Without a major filter the filtered set is the whole set of versions, whatever
  the minor filter is; with a major filter it holds exactly the versions of that major
  and, when a minor filter is given too, of that minor.
\<close>

theorem filter_versions_keeps_exactly:
  assumes "version_set versions"
  shows "filter_versions versions None fminor = versions \<and>
         filter_versions versions (Some fma) None = filter (\<lambda>v. major v = fma) versions \<and>
         filter_versions versions (Some fma) (Some fmi) =
           filter (\<lambda>v. major v = fma \<and> minor v = fmi) versions"
  using filter_versions_Some[OF assms] by (simp add: filter_versions_def)

theorem filter_versions_keeps_exactly_witness:
  "version_set [version_of 1 0 0, version_of 1 2 0, version_of 2 2 5]
   \<and> filter_versions [version_of 1 0 0, version_of 1 2 0, version_of 2 2 5] None (Some 2)
       = [version_of 1 0 0, version_of 1 2 0, version_of 2 2 5]
   \<and> filter_versions [version_of 1 0 0, version_of 1 2 0, version_of 2 2 5] (Some 1) None
       = [version_of 1 0 0, version_of 1 2 0]
   \<and> filter_versions [version_of 1 0 0, version_of 1 2 0, version_of 2 2 5] (Some 1) (Some 2)
       = [version_of 1 2 0]"
proof -
  have h: "version_set [version_of 1 0 0, version_of 1 2 0, version_of 2 2 5]"
    by code_simp
  show ?thesis
    using h filter_versions_keeps_exactly[OF h, where fminor = "Some 2" and fma = 1 and fmi = 2]
    by (simp add: version_of_def)
qed

text \<open>
  C8. For a selected version the name rendered in snapshot mode is
  prefix major.minor-SNAPSHOT suffix: it holds the marker and does not depend on the
  patch; without snapshot mode it is prefix major.minor.patch suffix.
\<close>

theorem rendered_name_format:
  assumes "selection opts git_repo = Inr (v, lg)"
  shows "new_version_tag_name opts v =
           (if create_snapshot_version opts then
              version_prefix opts @ str_int (major v) @ ''.'' @ str_int (minor v)
                @ ''-SNAPSHOT'' @ version_suffix opts
            else
              version_prefix opts @ str_int (major v) @ ''.'' @ str_int (minor v) @ ''.''
                @ str_int (patch v) @ version_suffix opts)
         \<and> (if create_snapshot_version opts then
              new_version_tag_name opts (v\<lparr>patch := q\<rparr>) = new_version_tag_name opts v
            else True)"
proof -
  from assms have "prerelease v = None \<and> build v = None"
    unfolding selection_def by (rule increased_version_plain)
  then show ?thesis
    by (simp add: new_version_tag_name_def generate_version_name_def strip_SNAPSHOT
        str_Version_plain)
qed

theorem rendered_name_format_witness:
  "selection (default_options\<lparr>create_snapshot_version := True\<rparr>) (repo_with_tags [''v1.4.2''])
     = Inr (version_of 1 4 3, [(INFO, ''Max Version is 1.4.2'')])
   \<and> new_version_tag_name (default_options\<lparr>create_snapshot_version := True\<rparr>) (version_of 1 4 3)
       = ''v1.4-SNAPSHOT''
   \<and> new_version_tag_name (default_options\<lparr>create_snapshot_version := True\<rparr>)
       ((version_of 1 4 3)\<lparr>patch := 77\<rparr>) = ''v1.4-SNAPSHOT''
   \<and> selection default_options (repo_with_tags [''v1.4.2''])
       = Inr (version_of 1 4 3, [(INFO, ''Max Version is 1.4.2'')])
   \<and> new_version_tag_name default_options (version_of 1 4 3) = ''v1.4.3''"
proof -
  let ?o = "default_options\<lparr>create_snapshot_version := True\<rparr>"
  have h: "selection ?o (repo_with_tags [''v1.4.2''])
             = Inr (version_of 1 4 3, [(INFO, ''Max Version is 1.4.2'')])"
    by code_simp
  have s: "version_prefix ?o @ str_int (major (version_of 1 4 3)) @ ''.''
             @ str_int (minor (version_of 1 4 3)) @ ''-SNAPSHOT'' @ version_suffix ?o
           = ''v1.4-SNAPSHOT''"
    by code_simp
  have c: "create_snapshot_version ?o" by (simp add: default_options_def)
  have h': "selection default_options (repo_with_tags [''v1.4.2''])
             = Inr (version_of 1 4 3, [(INFO, ''Max Version is 1.4.2'')])"
    by code_simp
  have s': "version_prefix default_options @ str_int (major (version_of 1 4 3)) @ ''.''
             @ str_int (minor (version_of 1 4 3)) @ ''.'' @ str_int (patch (version_of 1 4 3))
             @ version_suffix default_options
           = ''v1.4.3''"
    by code_simp
  have c': "\<not> create_snapshot_version default_options" by (simp add: default_options_def)
  show ?thesis
    using h s c h' s' c' rendered_name_format[OF h, of 77] rendered_name_format[OF h', of 0]
    by simp
qed

text \<open>
  C9. With the prefix \<open>1\<close> the version 1.0.0 is rendered as \<open>11.0.0\<close>, from which line 20
  leaves \<open>.0.0\<close>: the name does not parse back, the next run finds no version, selects
  1.0.0 again and stops on the collision. With the prefix \<open>v\<close> and the suffix \<open>-dev\<close>
  the name \<open>v1.0.0-dev\<close> parses back to 1.0.0 with the prerelease \<open>de\<close>. Stripping
  only the leading prefix and the trailing suffix gives the version back
  (\<open>exact_strip_round_trip\<close>), and so does line 20 when neither the prefix nor the suffix
  starts with a digit or a dot and the prefix does not occur in the suffix
  (\<open>replace_round_trip\<close>).
\<close>

theorem rendered_name_does_not_parse_back:
  "generate_version_name (version_of 1 0 0) ''1'' [] False (Some ''SNAPSHOT'') = ''11.0.0''
   \<and> startswith ''11.0.0'' ''1'' \<and> endswith ''11.0.0'' []
   \<and> extracted_version ''11.0.0'' ''1'' [] = ''.0.0''
   \<and> parse (extracted_version ''11.0.0'' ''1'' []) = Inl ValueError
   \<and> parse (strip_affixes ''11.0.0'' ''1'' []) = Inr (version_of 1 0 0)
   \<and> calculate_new_version (default_options\<lparr>version_prefix := ''1''\<rparr>) (repo_with_tags [''11.0.0''])
       = \<lparr>exit_status = 1, stdout = [],
          stderr = [''ERROR: Could not create 11.0.0 git-tag, because it already exsists''],
          git_ops = [Fetch ''origin'', Pull ''origin''], uncaught = None\<rparr>
   \<and> generate_version_name (version_of 1 0 0) ''v'' ''-dev'' False (Some ''SNAPSHOT'')
       = ''v1.0.0-dev''
   \<and> parse (extracted_version ''v1.0.0-dev'' ''v'' ''-dev'')
       = Inr \<lparr>major = 1, minor = 0, patch = 0, prerelease = Some ''de'', build = None\<rparr>"
  by code_simp

text \<open>
  C10. In a run with the flag create-no-git-tag that reaches line 105, the existing tag
  names are not consulted: the rendered name is printed, the exit status is 0, no error
  is written to standard error, and no tag is created or pushed, also when the name is
  the name of an existing tag.
\<close>

theorem dry_run_skips_collision_check:
  assumes "create_no_git_tag opts"
    and "selection opts git_repo = Inr (v, lg)"
  shows "exit_status (calculate_new_version opts git_repo) = 0
         \<and> stdout (calculate_new_version opts git_repo) = [new_version_tag_name opts v]
         \<and> \<not> list_ex writes_tag (git_ops (calculate_new_version opts git_repo))
         \<and> uncaught (calculate_new_version opts git_repo) = None
         \<and> ''ERROR: '' @ m \<notin> set (stderr (calculate_new_version opts git_repo))"
proof -
  obtain ops0 log0 where pre:
    "(if pull_before opts then fetch_and_pull_remotes git_repo else ([], [])) = (ops0, log0)"
    by (cases "if pull_before opts then fetch_and_pull_remotes git_repo else ([], [])")
  with pull_ops_write_no_tag[of opts git_repo] have ops0: "\<not> list_ex writes_tag ops0"
    by simp
  from pre pull_log_no_error[of opts git_repo] have "\<forall>r \<in> set log0. fst r \<noteq> ERROR"
    by simp
  moreover from assms(2) have "\<forall>r \<in> set lg. fst r \<noteq> ERROR"
    unfolding selection_def by (rule increased_version_no_error)
  ultimately have "\<forall>r \<in> set (log0 @ logged (find_previous_versions
           (references git_repo) (version_prefix opts) (version_suffix opts)) @ lg).
           fst r \<noteq> ERROR"
    using find_previous_versions_no_error[of "references git_repo" "version_prefix opts"
        "version_suffix opts"]
    by (simp add: ball_Un)
  then have quiet: "''ERROR: '' @ m \<notin> set (emitted (verbose opts) (log0 @ logged
           (find_previous_versions (references git_repo) (version_prefix opts)
              (version_suffix opts)) @ lg))"
    by (rule emitted_no_error)
  have "calculate_new_version opts git_repo =
      \<lparr>exit_status = 0, stdout = [new_version_tag_name opts v],
       stderr = emitted (verbose opts) (log0 @ logged (find_previous_versions
           (references git_repo) (version_prefix opts) (version_suffix opts)) @ lg),
       git_ops = ops0, uncaught = None\<rparr>"
    using assms pre by (simp add: calculate_new_version_def Let_def)
  with ops0 quiet show ?thesis by simp
qed

theorem dry_run_skips_collision_check_witness:
  "create_no_git_tag
     (default_options\<lparr>create_snapshot_version := True, create_no_git_tag := True\<rparr>)
   \<and> selection (default_options\<lparr>create_snapshot_version := True, create_no_git_tag := True\<rparr>)
       (repo_with_tags [''v2.3.0'', ''v2.3-SNAPSHOT''])
       = Inr (version_of 2 3 1, [(INFO, ''Max Version is 2.3.0'')])
   \<and> ''v2.3-SNAPSHOT'' \<in> set (all_git_tags (find_previous_versions
         (references (repo_with_tags [''v2.3.0'', ''v2.3-SNAPSHOT''])) ''v'' []))
   \<and> exit_status (calculate_new_version
         (default_options\<lparr>create_snapshot_version := True, create_no_git_tag := True\<rparr>)
         (repo_with_tags [''v2.3.0'', ''v2.3-SNAPSHOT''])) = 0
   \<and> stdout (calculate_new_version
         (default_options\<lparr>create_snapshot_version := True, create_no_git_tag := True\<rparr>)
         (repo_with_tags [''v2.3.0'', ''v2.3-SNAPSHOT''])) = [''v2.3-SNAPSHOT'']
   \<and> \<not> list_ex writes_tag (git_ops (calculate_new_version
         (default_options\<lparr>create_snapshot_version := True, create_no_git_tag := True\<rparr>)
         (repo_with_tags [''v2.3.0'', ''v2.3-SNAPSHOT''])))"
proof -
  let ?o = "default_options\<lparr>create_snapshot_version := True, create_no_git_tag := True\<rparr>"
  let ?r = "repo_with_tags [''v2.3.0'', ''v2.3-SNAPSHOT'']"
  have h1: "create_no_git_tag ?o" by (simp add: default_options_def)
  have h2: "selection ?o ?r = Inr (version_of 2 3 1, [(INFO, ''Max Version is 2.3.0'')])"
    by code_simp
  have n: "new_version_tag_name ?o (version_of 2 3 1) = ''v2.3-SNAPSHOT''"
    by code_simp
  have t: "''v2.3-SNAPSHOT'' \<in> set (all_git_tags (find_previous_versions
         (references ?r) ''v'' []))"
    by code_simp
  show ?thesis
    using h1 h2 n t dry_run_skips_collision_check[OF h1 h2] by simp
qed

end
